theory Spec2Isabelle
  imports Complex_Main "HOL-Library.Log_Nat"
begin

section \<open>JavaScript numbers\<close>

text \<open>
  A JavaScript \<open>number\<close> is an IEEE-754 binary64 value: a finite double, one of the two
  infinities, or NaN. A finite double is modelled by the rational it denotes. The two
  zeros are one value here: the stores never divide, and \<open>+\<close>, \<open>-\<close>, \<open>*\<close>, \<open>>\<close> and
  \<open>===\<close> give the same results for \<open>-0\<close> as for \<open>0\<close>, up to the sign of a zero.
\<close>

datatype number = Finite rat | PosInf | NegInf | NaN

text \<open>\<open>ilog2 x\<close> is the integer \<open>k\<close> with \<open>2^k \<le> |x| < 2^(k+1)\<close>, for \<open>x\<close> other than 0.\<close>

definition ilog2 :: "rat \<Rightarrow> int" where
  "ilog2 x =
     (case quotient_of \<bar>x\<bar> of
        (a, b) \<Rightarrow> (let d = bitlen a - bitlen b in if 2 powi d \<le> \<bar>x\<bar> then d else d - 1))"

text \<open>The nearest integer, a tie going to the even one.\<close>

definition round_half_even :: "rat \<Rightarrow> int" where
  "round_half_even x =
     (let n = \<lfloor>x\<rfloor>; r = x - of_int n
      in if r < 1 / 2 then n
         else if 1 / 2 < r then n + 1
         else if even n then n else n + 1)"

text \<open>
  The exponent of the unit in the last place: 53 significant bits, and the spacing
  \<open>2^-1074\<close> of the subnormal numbers below \<open>2^-1022\<close>.
\<close>

definition ulp_exponent :: "rat \<Rightarrow> int" where
  "ulp_exponent x = max (ilog2 x - 52) (- 1074)"

text \<open>
  Rounding an exact result to a double (round to nearest, ties to even): the nearest
  multiple of the unit in the last place, and an infinity when that is \<open>2^1024\<close> or
  more in magnitude.
\<close>

definition fl :: "rat \<Rightarrow> number" where
  "fl x =
     (if x = 0 then Finite 0
      else (let e = ulp_exponent x;
                y = of_int (round_half_even (x / 2 powi e)) * 2 powi e
            in if 2 ^ 1024 \<le> y then PosInf
               else if y \<le> - (2 ^ 1024) then NegInf
               else Finite y))"

text \<open>
  \<open>Finite x\<close> is a double when rounding leaves \<open>x\<close> as it is. The type has other
  rationals too; a statement about every value of the type holds of every double.
\<close>

definition is_double :: "number \<Rightarrow> bool" where
  "is_double v = (case v of Finite x \<Rightarrow> fl x = Finite x | _ \<Rightarrow> True)"

text \<open>The operators \<open>a + b\<close>, \<open>a - b\<close>, \<open>a * b\<close> and \<open>a > b\<close> on numbers.\<close>

fun js_neg :: "number \<Rightarrow> number" where
  "js_neg (Finite x) = Finite (- x)"
| "js_neg PosInf = NegInf"
| "js_neg NegInf = PosInf"
| "js_neg NaN = NaN"

fun js_add :: "number \<Rightarrow> number \<Rightarrow> number" where
  "js_add (Finite x) (Finite y) = fl (x + y)"
| "js_add NaN _ = NaN"
| "js_add _ NaN = NaN"
| "js_add PosInf NegInf = NaN"
| "js_add NegInf PosInf = NaN"
| "js_add PosInf _ = PosInf"
| "js_add _ PosInf = PosInf"
| "js_add NegInf _ = NegInf"
| "js_add _ NegInf = NegInf"

fun js_sub :: "number \<Rightarrow> number \<Rightarrow> number" where
  "js_sub (Finite x) (Finite y) = fl (x - y)"
| "js_sub NaN _ = NaN"
| "js_sub _ NaN = NaN"
| "js_sub PosInf PosInf = NaN"
| "js_sub NegInf NegInf = NaN"
| "js_sub PosInf _ = PosInf"
| "js_sub _ PosInf = NegInf"
| "js_sub NegInf _ = NegInf"
| "js_sub _ NegInf = PosInf"

fun js_mul :: "number \<Rightarrow> number \<Rightarrow> number" where
  "js_mul (Finite x) (Finite y) = fl (x * y)"
| "js_mul NaN _ = NaN"
| "js_mul _ NaN = NaN"
| "js_mul (Finite x) v = (if x = 0 then NaN else if 0 < x then v else js_neg v)"
| "js_mul v (Finite y) = (if y = 0 then NaN else if 0 < y then v else js_neg v)"
| "js_mul PosInf v = v"
| "js_mul NegInf v = js_neg v"

fun js_gt :: "number \<Rightarrow> number \<Rightarrow> bool" where
  "js_gt (Finite x) (Finite y) = (y < x)"
| "js_gt NaN _ = False"
| "js_gt _ NaN = False"
| "js_gt _ PosInf = False"
| "js_gt PosInf _ = True"
| "js_gt NegInf _ = False"
| "js_gt _ NegInf = True"

section \<open>Data model\<close>

text \<open>
  An optional field (\<open>price?: number\<close>) can be absent (\<open>undefined\<close>), and can be
  \<open>null\<close> after a round trip through JSON.
\<close>

datatype 'a optional = Undefined | Null | Defined 'a

text \<open>The operator \<open>v ?? d\<close>: \<open>d\<close> when \<open>v\<close> is \<open>null\<close> or \<open>undefined\<close>, else \<open>v\<close>.\<close>

definition nullish :: "'a optional \<Rightarrow> 'a \<Rightarrow> 'a" where
  "nullish v d = (case v of Undefined \<Rightarrow> d | Null \<Rightarrow> d | Defined x \<Rightarrow> x)"

text \<open>
  Modelled from the spec: the type \<open>Product\<close> is imported from \<open>@/sanity.types\<close>, which
  is not among the sources. The spec gives it a unique identifier \<open>_id\<close>, an optional
  numeric \<open>price\<close>, and other display attributes that the store does not touch; these
  are the type parameter \<open>'a\<close> (field \<open>other\<close>).
\<close>

record 'a product =
  p_id :: string
  price :: "number optional"
  other :: 'a

text \<open>
  \<open>interface CartItem { product: Product; quantity: number }\<close>. The interface
  \<open>BasketItem\<close> of the basket store has the same fields, and TypeScript's types are
  structural, so both stores share this record.
\<close>

record 'a cart_item =
  product :: "'a product"
  quantity :: number

text \<open>The data part of \<open>CartState\<close> (and of \<open>BasketState\<close>): the field \<open>items\<close>.\<close>

record 'a cart_state =
  items :: "'a cart_item list"

text \<open>The store as created: \<open>items: []\<close>.\<close>

definition initial :: "'a cart_state" where
  "initial = \<lparr>items = []\<rparr>"

section \<open>The cart store (\<open>src/store/store.ts\<close>)\<close>

text \<open>
  \<open>set(f)\<close> replaces the fields that \<open>f state\<close> returns and keeps the others; a
  mutator returns nothing and is a function from the state to the next state.
  \<open>Array.find\<close> returns the first matching element or \<open>undefined\<close>, and an object is
  always truthy, so \<open>if (existingItem)\<close> tests that an element was found.
\<close>

definition addItem :: "'a product \<Rightarrow> 'a cart_state \<Rightarrow> 'a cart_state" where
  "addItem p state =
     (let existingItem = find (\<lambda>item. p_id (product item) = p_id p) (items state)
      in if existingItem \<noteq> None
         then state\<lparr>items :=
                map (\<lambda>item. if p_id (product item) = p_id p
                            then item\<lparr>quantity := js_add (quantity item) (Finite 1)\<rparr>
                            else item) (items state)\<rparr>
         else state\<lparr>items := items state @ [\<lparr>product = p, quantity = Finite 1\<rparr>]\<rparr>)"

text \<open>\<open>reduce\<close> with an accumulator array and \<open>push\<close> is a left fold that appends.\<close>

definition removeItem :: "string \<Rightarrow> 'a cart_state \<Rightarrow> 'a cart_state" where
  "removeItem productId state =
     state\<lparr>items :=
       foldl (\<lambda>acc item.
                if p_id (product item) = productId
                then (if js_gt (quantity item) (Finite 1)
                      then acc @ [item\<lparr>quantity := js_sub (quantity item) (Finite 1)\<rparr>]
                      else acc)
                else acc @ [item])
             [] (items state)\<rparr>"

definition clearCart :: "'a cart_state \<Rightarrow> 'a cart_state" where
  "clearCart state = state\<lparr>items := []\<rparr>"

text \<open>
  A query reads the state with \<open>get()\<close> and returns a value; it is a function from the
  state to the value and the state after the call.
\<close>

definition getTotalPrice :: "'a cart_state \<Rightarrow> number \<times> 'a cart_state" where
  "getTotalPrice state =
     (foldl (\<lambda>total item.
               js_add total (js_mul (nullish (price (product item)) (Finite 0)) (quantity item)))
            (Finite 0) (items state),
      state)"

definition getItemCount :: "string \<Rightarrow> 'a cart_state \<Rightarrow> number \<times> 'a cart_state" where
  "getItemCount productId state =
     ((case find (\<lambda>item. p_id (product item) = productId) (items state) of
         Some item \<Rightarrow> quantity item
       | None \<Rightarrow> Finite 0),
      state)"

definition getGroupedItems :: "'a cart_state \<Rightarrow> 'a cart_item list \<times> 'a cart_state" where
  "getGroupedItems state = (items state, state)"

section \<open>The basket store (\<open>src/unnamed/part_000\<close>)\<close>

text \<open>
  The second store, \<open>useBasketStore\<close>, transcribed from its own file. Its reset action
  is called \<open>clearBasket\<close>.
\<close>

definition basket_addItem :: "'a product \<Rightarrow> 'a cart_state \<Rightarrow> 'a cart_state" where
  "basket_addItem p state =
     (let existingItem = find (\<lambda>item. p_id (product item) = p_id p) (items state)
      in if existingItem \<noteq> None
         then state\<lparr>items :=
                map (\<lambda>item. if p_id (product item) = p_id p
                            then item\<lparr>quantity := js_add (quantity item) (Finite 1)\<rparr>
                            else item) (items state)\<rparr>
         else state\<lparr>items := items state @ [\<lparr>product = p, quantity = Finite 1\<rparr>]\<rparr>)"

definition basket_removeItem :: "string \<Rightarrow> 'a cart_state \<Rightarrow> 'a cart_state" where
  "basket_removeItem productId state =
     state\<lparr>items :=
       foldl (\<lambda>acc item.
                if p_id (product item) = productId
                then (if js_gt (quantity item) (Finite 1)
                      then acc @ [item\<lparr>quantity := js_sub (quantity item) (Finite 1)\<rparr>]
                      else acc)
                else acc @ [item])
             [] (items state)\<rparr>"

definition clearBasket :: "'a cart_state \<Rightarrow> 'a cart_state" where
  "clearBasket state = state\<lparr>items := []\<rparr>"

definition basket_getTotalPrice :: "'a cart_state \<Rightarrow> number \<times> 'a cart_state" where
  "basket_getTotalPrice state =
     (foldl (\<lambda>total item.
               js_add total (js_mul (nullish (price (product item)) (Finite 0)) (quantity item)))
            (Finite 0) (items state),
      state)"

definition basket_getItemCount :: "string \<Rightarrow> 'a cart_state \<Rightarrow> number \<times> 'a cart_state" where
  "basket_getItemCount productId state =
     ((case find (\<lambda>item. p_id (product item) = productId) (items state) of
         Some item \<Rightarrow> quantity item
       | None \<Rightarrow> Finite 0),
      state)"

definition basket_getGroupedItems :: "'a cart_state \<Rightarrow> 'a cart_item list \<times> 'a cart_state" where
  "basket_getGroupedItems state = (items state, state)"

section \<open>Calls on a store\<close>

text \<open>
  A client of a store calls its six functions in some order. \<open>Clear\<close> is \<open>clearCart\<close>
  on the cart store and \<open>clearBasket\<close> on the basket store.
\<close>

datatype 'a store_call =
    AddItem "'a product"
  | RemoveItem string
  | Clear
  | GetTotalPrice
  | GetItemCount string
  | GetGroupedItems

datatype 'a call_result = Void | Number number | ItemList "'a cart_item list"

fun cart_call :: "'a store_call \<Rightarrow> 'a cart_state \<Rightarrow> 'a call_result \<times> 'a cart_state" where
  "cart_call (AddItem p) state = (Void, addItem p state)"
| "cart_call (RemoveItem productId) state = (Void, removeItem productId state)"
| "cart_call Clear state = (Void, clearCart state)"
| "cart_call GetTotalPrice state =
     (case getTotalPrice state of (r, state') \<Rightarrow> (Number r, state'))"
| "cart_call (GetItemCount productId) state =
     (case getItemCount productId state of (r, state') \<Rightarrow> (Number r, state'))"
| "cart_call GetGroupedItems state =
     (case getGroupedItems state of (r, state') \<Rightarrow> (ItemList r, state'))"

fun basket_call :: "'a store_call \<Rightarrow> 'a cart_state \<Rightarrow> 'a call_result \<times> 'a cart_state" where
  "basket_call (AddItem p) state = (Void, basket_addItem p state)"
| "basket_call (RemoveItem productId) state = (Void, basket_removeItem productId state)"
| "basket_call Clear state = (Void, clearBasket state)"
| "basket_call GetTotalPrice state =
     (case basket_getTotalPrice state of (r, state') \<Rightarrow> (Number r, state'))"
| "basket_call (GetItemCount productId) state =
     (case basket_getItemCount productId state of (r, state') \<Rightarrow> (Number r, state'))"
| "basket_call GetGroupedItems state =
     (case basket_getGroupedItems state of (r, state') \<Rightarrow> (ItemList r, state'))"

text \<open>A sequence of calls: the results in order, and the state after the last call.\<close>

fun cart_run :: "'a store_call list \<Rightarrow> 'a cart_state \<Rightarrow> 'a call_result list \<times> 'a cart_state" where
  "cart_run [] state = ([], state)"
| "cart_run (c # cs) state =
     (case cart_call c state of
        (r, state') \<Rightarrow> (case cart_run cs state' of (rs, state'') \<Rightarrow> (r # rs, state'')))"

fun basket_run :: "'a store_call list \<Rightarrow> 'a cart_state \<Rightarrow> 'a call_result list \<times> 'a cart_state" where
  "basket_run [] state = ([], state)"
| "basket_run (c # cs) state =
     (case basket_call c state of
        (r, state') \<Rightarrow> (case basket_run cs state' of (rs, state'') \<Rightarrow> (r # rs, state'')))"

section \<open>The invariant of the data model\<close>

text \<open>
  The spec's \<open>CartState\<close>: no two entries share a \<open>product._id\<close>, and every quantity
  is an integer that is at least 1.
\<close>

definition is_integer :: "number \<Rightarrow> bool" where
  "is_integer v = (case v of Finite q \<Rightarrow> of_int \<lfloor>q\<rfloor> = q | _ \<Rightarrow> False)"

definition at_least_1 :: "number \<Rightarrow> bool" where
  "at_least_1 v = (case v of Finite q \<Rightarrow> 1 \<le> q | PosInf \<Rightarrow> True | _ \<Rightarrow> False)"

definition unique_ids :: "'a cart_state \<Rightarrow> bool" where
  "unique_ids state \<longleftrightarrow> distinct (map (\<lambda>item. p_id (product item)) (items state))"

definition quantities_ok :: "'a cart_state \<Rightarrow> bool" where
  "quantities_ok state \<longleftrightarrow>
     list_all (\<lambda>item. is_integer (quantity item) \<and> at_least_1 (quantity item)) (items state)"

definition cart_inv :: "'a cart_state \<Rightarrow> bool" where
  "cart_inv state \<longleftrightarrow> unique_ids state \<and> quantities_ok state"

text \<open>
  The quantities that the store itself produces stay in a smaller range: counting up
  from 1 in doubles stops at \<open>2^53\<close>.
\<close>

definition counted :: "number \<Rightarrow> bool" where
  "counted v = (case v of Finite q \<Rightarrow> of_int \<lfloor>q\<rfloor> = q \<and> 1 \<le> q \<and> q \<le> 2 ^ 53 | _ \<Rightarrow> False)"

definition counted_quantities :: "'a cart_state \<Rightarrow> bool" where
  "counted_quantities state \<longleftrightarrow> list_all (\<lambda>item. counted (quantity item)) (items state)"

section \<open>Exact arithmetic, for comparison\<close>




text \<open>An integer of magnitude less than \<open>2^53\<close>.\<close>

definition small_integer :: "number \<Rightarrow> bool" where
  "small_integer v = (case v of Finite q \<Rightarrow> of_int \<lfloor>q\<rfloor> = q \<and> \<bar>q\<bar> < 2 ^ 53 | _ \<Rightarrow> False)"

text \<open>\<open>w\<close> is \<open>v\<close> plus 1, exactly.\<close>

definition one_more :: "number \<Rightarrow> number \<Rightarrow> bool" where
  "one_more v w = (case v of Finite q \<Rightarrow> w = Finite (q + 1) | _ \<Rightarrow> False)"

section \<open>The payment webhook (\<open>src/app/(store)/webhook/route.ts\<close>)\<close>

text \<open>
  What the handler reads: the body of the request (\<open>req.text()\<close>), the headers of the
  request (\<open>headersList.get\<close> returns the value or \<open>null\<close>), and the environment
  (\<open>process.env.X\<close> is the value or \<open>undefined\<close>).
\<close>

record request =
  req_text :: string
  headers :: "string \<rightharpoonup> string"

type_synonym env = "string \<rightharpoonup> string"

text \<open>\<open>NextResponse.json(body, { status })\<close>, the body an object of string fields.\<close>

record response =
  json :: "(string \<times> string) list"
  status :: nat

text \<open>
  \<open>!v\<close> for a value that is a string, \<open>null\<close> or \<open>undefined\<close>: true when there is no
  string, and also when the string is empty.
\<close>

definition falsy :: "string option \<Rightarrow> bool" where
  "falsy v = (case v of None \<Rightarrow> True | Some s \<Rightarrow> s = [])"

text \<open>
  The handler's outcome: the value it returns (\<open>None\<close> when it reaches the end of the
  function without a \<open>return\<close>, so that the caller gets \<open>undefined\<close>), and the lines
  written by \<open>console.log\<close>.
\<close>

definition POST :: "request \<Rightarrow> env \<Rightarrow> response option \<times> string list" where
  "POST req environment =
     (let body = req_text req;
          sig = headers req ''stripe-signature''
      in if falsy sig
         then (Some \<lparr>json = [(''error'', ''No signature'')], status = 400\<rparr>, [])
         else
           (let webhookSecret = environment ''STRIPE_WEBHOOK_SECRET''
            in if falsy webhookSecret
               then (Some \<lparr>json = [(''error'', ''Stripe webhook secret is not set'')],
                            status = 400\<rparr>,
                     [''Stripe webhook secret is not set.''])
               else (None, [])))"

section \<open>Example values\<close>

text \<open>The products of the spec's end-to-end scenario, and a third one.\<close>

definition product_a :: "string product" where
  "product_a = \<lparr>p_id = ''a'', price = Defined (Finite 10), other = ''Apple''\<rparr>"

definition product_b :: "string product" where
  "product_b = \<lparr>p_id = ''b'', price = Defined (Finite 5), other = ''Bread''\<rparr>"

definition product_c :: "string product" where
  "product_c = \<lparr>p_id = ''c'', price = Undefined, other = ''Cocoa''\<rparr>"

text \<open>A product with the identifier of \<open>product_a\<close> and another price and name.\<close>

definition product_a' :: "string product" where
  "product_a' = \<lparr>p_id = ''a'', price = Defined (Finite 99), other = ''Apricot''\<rparr>"

definition example_cart :: "string cart_state" where
  "example_cart =
     \<lparr>items = [\<lparr>product = product_a, quantity = Finite 2\<rparr>,
               \<lparr>product = product_b, quantity = Finite 1\<rparr>]\<rparr>"

text \<open>A cart that holds \<open>product_a\<close> \<open>2^53\<close> times, and one that holds it \<open>2^53 + 2\<close> times.\<close>

definition saturated_cart :: "string cart_state" where
  "saturated_cart = \<lparr>items = [\<lparr>product = product_a, quantity = Finite (2 ^ 53)\<rparr>]\<rparr>"

definition oversized_cart :: "string cart_state" where
  "oversized_cart = \<lparr>items = [\<lparr>product = product_a, quantity = Finite (2 ^ 53 + 2)\<rparr>]\<rparr>"




text \<open>A request whose signature header is there with an empty value, and others.\<close>

definition empty_signature_request :: request where
  "empty_signature_request =
     \<lparr>req_text = ''{}'', headers = [''stripe-signature'' \<mapsto> []]\<rparr>"

definition signed_request :: request where
  "signed_request =
     \<lparr>req_text = ''{}'', headers = [''stripe-signature'' \<mapsto> ''t=1,v1=abc'']\<rparr>"

definition unsigned_request :: request where
  "unsigned_request = \<lparr>req_text = ''{}'', headers = Map.empty\<rparr>"

definition configured_env :: env where
  "configured_env = [''STRIPE_WEBHOOK_SECRET'' \<mapsto> ''whsec_1'']"

text \<open>A request with another body and a signature that nobody issued.\<close>

definition forged_request :: request where
  "forged_request =
     \<lparr>req_text = ''{type: checkout.session.completed}'',
      headers = [''stripe-signature'' \<mapsto> ''forged'']\<rparr>"

section \<open>Helper lemmas\<close>

subsection \<open>Rounding to a double\<close>

lemma pow2_nat_powi: "0 \<le> k \<Longrightarrow> (2::rat) ^ nat k = 2 powi k"
  by (simp add: power_int_def)

lemma ilog2_bounds:
  assumes "x \<noteq> 0"
  shows "2 powi ilog2 x \<le> \<bar>x\<bar>" and "\<bar>x\<bar> < 2 powi (ilog2 x + 1)"
proof -
  obtain a b where q: "quotient_of \<bar>x\<bar> = (a, b)" by (cases "quotient_of \<bar>x\<bar>")
  then have b: "0 < b" and x: "\<bar>x\<bar> = of_int a / of_int b"
    using quotient_of_denom_pos[of "\<bar>x\<bar>" a b] quotient_of_div[of "\<bar>x\<bar>" a b] by simp_all
  from assms have "0 < \<bar>x\<bar>" by simp
  with x b have a: "0 < a" by (simp add: zero_less_divide_iff)
  define la lb where "la = bitlen a" and "lb = bitlen b"
  have la1: "1 \<le> la" and lb1: "1 \<le> lb"
    using a b bitlen_eq_zero_iff[of a] bitlen_eq_zero_iff[of b] bitlen_nonneg[of a] bitlen_nonneg[of b]
    by (auto simp add: la_def lb_def)
  from bitlen_bounds[OF a] have "(2::int) ^ nat (la - 1) \<le> a" "a < 2 ^ nat la" by (simp_all add: la_def)
  then have "(of_int ((2::int) ^ nat (la - 1)) :: rat) \<le> of_int a" "(of_int a :: rat) < of_int (2 ^ nat la)"
    by (simp_all only: of_int_le_iff of_int_less_iff)
  then have A: "(2::rat) powi (la - 1) \<le> of_int a" "(of_int a :: rat) < 2 powi la"
    using la1 by (simp_all add: pow2_nat_powi)
  from bitlen_bounds[OF b] have "(2::int) ^ nat (lb - 1) \<le> b" "b < 2 ^ nat lb" by (simp_all add: lb_def)
  then have "(of_int ((2::int) ^ nat (lb - 1)) :: rat) \<le> of_int b" "(of_int b :: rat) < of_int (2 ^ nat lb)"
    by (simp_all only: of_int_le_iff of_int_less_iff)
  then have B: "(2::rat) powi (lb - 1) \<le> of_int b" "(of_int b :: rat) < 2 powi lb"
    using lb1 by (simp_all add: pow2_nat_powi)
  have bpos: "(0::rat) < of_int b" using b by simp
  have lower: "(2::rat) powi (la - lb - 1) \<le> \<bar>x\<bar>"
  proof -
    have "(2::rat) powi (la - lb - 1) * of_int b \<le> 2 powi (la - lb - 1) * 2 powi lb"
      using B(2) by (intro mult_left_mono) simp_all
    also have "\<dots> = 2 powi (la - 1)" by (simp add: power_int_add[symmetric])
    also have "\<dots> \<le> of_int a" by (rule A(1))
    finally show ?thesis using bpos by (simp add: x pos_le_divide_eq)
  qed
  have upper: "\<bar>x\<bar> < (2::rat) powi (la - lb + 1)"
  proof -
    have "of_int a < (2::rat) powi la" by (rule A(2))
    also have "\<dots> = 2 powi (la - lb + 1) * 2 powi (lb - 1)" by (simp add: power_int_add[symmetric])
    also have "\<dots> \<le> 2 powi (la - lb + 1) * of_int b"
      using B(1) by (intro mult_left_mono) simp_all
    finally show ?thesis using bpos by (simp add: x pos_divide_less_eq)
  qed
  have il: "ilog2 x = (if 2 powi (la - lb) \<le> \<bar>x\<bar> then la - lb else la - lb - 1)"
    by (simp add: ilog2_def q la_def lb_def Let_def)
  show "2 powi ilog2 x \<le> \<bar>x\<bar>" using lower by (simp add: il)
  show "\<bar>x\<bar> < 2 powi (ilog2 x + 1)" using upper by (auto simp add: il not_le)
qed

lemma pow2_le_exp: "(2::rat) powi m \<le> 2 powi n \<Longrightarrow> m \<le> n"
proof (rule ccontr)
  assume le: "(2::rat) powi m \<le> 2 powi n" and "\<not> m \<le> n"
  then have "n < m" by simp
  then have "(2::rat) powi n < 2 powi m" by (rule power_int_strict_increasing) simp
  with le show False by simp
qed

lemma pow2_less_exp: "(2::rat) powi m < 2 powi n \<Longrightarrow> m < n"
proof (rule ccontr)
  assume less: "(2::rat) powi m < 2 powi n" and "\<not> m < n"
  then have "n \<le> m" by simp
  then have "(2::rat) powi n \<le> 2 powi m" by (rule power_int_increasing) simp
  with less show False by simp
qed

lemma ilog2_unique:
  assumes "2 powi k \<le> \<bar>x\<bar>" and "\<bar>x\<bar> < 2 powi (k + 1)"
  shows "ilog2 x = k"
proof -
  have "(0::rat) < 2 powi k" by (rule zero_less_power_int) simp
  with assms(1) have "0 < \<bar>x\<bar>" by linarith
  then have nz: "x \<noteq> 0" by simp
  from ilog2_bounds[OF nz] assms
  have "(2::rat) powi k < 2 powi (ilog2 x + 1)" "(2::rat) powi ilog2 x < 2 powi (k + 1)"
    by simp_all
  then have "k < ilog2 x + 1" "ilog2 x < k + 1"
    by (simp_all only: pow2_less_exp)
  then show ?thesis by simp
qed

lemma round_half_even_of_int: "round_half_even (of_int n) = n"
  by (simp add: round_half_even_def)

lemma fl_exact:
  assumes "x = of_int m * 2 powi ulp_exponent x" and "\<bar>x\<bar> < 2 ^ 1024"
  shows "fl x = Finite x"
proof (cases "x = 0")
  case True
  then show ?thesis by (simp add: fl_def)
next
  case False
  have nz: "(2::rat) powi ulp_exponent x \<noteq> 0" by simp
  have "x / 2 powi ulp_exponent x = of_int m * 2 powi ulp_exponent x / 2 powi ulp_exponent x"
    using assms(1) by simp
  also have "\<dots> = of_int m" using nz by simp
  finally have "of_int (round_half_even (x / 2 powi ulp_exponent x)) * 2 powi ulp_exponent x = x"
    using assms(1) by (simp only: round_half_even_of_int)
  moreover from assms(2) have "\<not> 2 ^ 1024 \<le> x" "\<not> x \<le> - (2 ^ 1024)"
    by (simp_all only: abs_less_iff not_le) simp_all
  ultimately show ?thesis using False
    by (simp only: fl_def Let_def if_False)
qed

lemma fl_small_integer:
  assumes "x \<in> \<int>" and "\<bar>x\<bar> \<le> 2 ^ 53"
  shows "fl x = Finite x"
proof (cases "x = 0")
  case True
  then show ?thesis by (simp add: fl_def)
next
  case False
  from assms(1) obtain n :: int where n: "x = of_int n" by (auto elim: Ints_cases)
  have "(2::rat) powi ilog2 x \<le> \<bar>x\<bar>" by (rule ilog2_bounds(1)[OF False])
  also note assms(2)
  also have "(2::rat) ^ 53 = 2 powi 53" by simp
  finally have le53: "ilog2 x \<le> 53" by (rule pow2_le_exp)
  have big: "\<bar>x\<bar> < 2 ^ 1024"
  proof -
    have "(2::rat) ^ 53 < 2 ^ 1024" by (rule power_strict_increasing) simp_all
    with assms(2) show ?thesis by linarith
  qed
  show ?thesis
  proof (cases "ilog2 x \<le> 52")
    case True
    define k where "k = nat (- ulp_exponent x)"
    from True have "ulp_exponent x \<le> 0" by (simp add: ulp_exponent_def)
    then have e: "ulp_exponent x = - int k" by (simp add: k_def)
    have p: "(2::rat) powi ulp_exponent x = 1 / 2 ^ k"
      unfolding e by (simp add: power_int_minus field_simps)
    have "x = of_int (n * 2 ^ k) * (1 / 2 ^ k)" by (simp add: n)
    then have "x = of_int (n * 2 ^ k) * 2 powi ulp_exponent x"
      by (simp only: p[symmetric])
    then show ?thesis using big by (rule fl_exact)
  next
    case F: False
    with le53 have i: "ilog2 x = 53" by simp
    then have e: "ulp_exponent x = 1" by (simp add: ulp_exponent_def)
    have "(2::rat) powi ilog2 x \<le> \<bar>x\<bar>" by (rule ilog2_bounds(1)[OF False])
    then have "2 ^ 53 \<le> \<bar>x\<bar>" by (simp add: i)
    with assms(2) have "\<bar>x\<bar> = 2 ^ 53" by simp
    then have "x = 2 ^ 53 \<or> x = - (2 ^ 53)" by (simp add: abs_if split: if_splits)
    then have "x = of_int (2 ^ 52) * 2 powi ulp_exponent x
             \<or> x = of_int (- (2 ^ 52)) * 2 powi ulp_exponent x"
      by (simp add: e)
    then show ?thesis using big fl_exact by blast
  qed
qed

text \<open>Evaluating a rounding by hand: the binade, the rounded quotient, the range.\<close>

lemma fl_eval:
  assumes "2 powi k \<le> \<bar>x\<bar>" and "\<bar>x\<bar> < 2 powi (k + 1)" and "- 1022 \<le> k"
    and "round_half_even (x / 2 powi (k - 52)) = n"
    and "y = of_int n * 2 powi (k - 52)"
    and "\<bar>y\<bar> < 2 ^ 1024"
  shows "fl x = Finite y"
proof -
  have "(0::rat) < 2 powi k" by (rule zero_less_power_int) simp
  with assms(1) have "0 < \<bar>x\<bar>" by linarith
  then have nz: "x \<noteq> 0" by simp
  from assms(1,2) have "ilog2 x = k" by (rule ilog2_unique)
  with assms(3) have e: "ulp_exponent x = k - 52" by (simp add: ulp_exponent_def)
  from assms(6) have "\<not> 2 ^ 1024 \<le> y" "\<not> y \<le> - (2 ^ 1024)"
    by (simp_all only: abs_less_iff not_le) simp_all
  with nz show ?thesis
    by (simp only: fl_def Let_def e assms(4) assms(5)[symmetric] if_False)
qed

lemma round_half_even_tie:
  assumes "x = of_int n + 1 / 2"
  shows "round_half_even x = (if even n then n else n + 1)"
proof -
  have "\<lfloor>x\<rfloor> = n" by (simp add: assms floor_eq_iff)
  then show ?thesis by (simp add: round_half_even_def assms)
qed

lemma fl_tie_53: "fl (2 ^ 53 + 1) = Finite (2 ^ 53)"
  by (rule fl_eval[where k = 53 and n = "2 ^ 52"])
     (simp_all add: round_half_even_tie[where n = "2 ^ 52"])




lemma is_double_small_integer: "x \<in> \<int> \<Longrightarrow> \<bar>x\<bar> \<le> 2 ^ 53 \<Longrightarrow> is_double (Finite x)"
  by (simp add: is_double_def fl_small_integer)

lemma is_double_oversized: "is_double (Finite (2 ^ 53 + 2))"
  unfolding is_double_def number.case
  by (rule fl_eval[where k = 53 and n = "2 ^ 52 + 1"])
     (simp_all add: round_half_even_of_int[of "2 ^ 52 + 1", simplified])

subsection \<open>Integers among the numbers\<close>

lemma is_integer_Finite: "is_integer (Finite q) \<longleftrightarrow> q \<in> \<int>"
  by (auto simp add: is_integer_def Ints_def)

lemma integer_gt_1:
  fixes q :: rat
  assumes "q \<in> \<int>" and "1 < q"
  shows "1 \<le> q - 1"
proof -
  from assms(1) obtain n :: int where q: "q = of_int n" by (auto elim: Ints_cases)
  with assms(2) have "1 < n" by simp
  then have "1 \<le> n - 1" by simp
  then have "(1::rat) \<le> of_int (n - 1)"
    by (simp only: of_int_le_iff[symmetric, where 'a=rat] of_int_1)
  with q show ?thesis by simp
qed

lemma integer_lt_succ:
  fixes q m :: rat
  assumes "q \<in> \<int>" and "m \<in> \<int>" and "q < m"
  shows "q + 1 \<le> m"
proof -
  from assms(1,2) obtain a b :: int where ab: "q = of_int a" "m = of_int b"
    by (auto elim!: Ints_cases)
  with assms(3) have "a < b" by simp
  then have "a + 1 \<le> b" by simp
  then have "(of_int (a + 1) :: rat) \<le> of_int b" by (simp only: of_int_le_iff)
  with ab show ?thesis by simp
qed

lemma add_1_small:
  fixes q :: rat
  assumes "q \<in> \<int>" and "\<bar>q\<bar> < 2 ^ 53"
  shows "fl (q + 1) = Finite (q + 1)"
proof -
  have "q + 1 \<in> \<int>" using assms(1) by simp
  moreover have "q + 1 \<le> 2 ^ 53"
    using integer_lt_succ[OF assms(1), of "2 ^ 53"] assms(2) by simp
  moreover have "- (2 ^ 53) \<le> q + 1" using assms(2) by simp
  ultimately have "q + 1 \<in> \<int>" "\<bar>q + 1\<bar> \<le> 2 ^ 53" by (simp_all add: abs_le_iff)
  then show ?thesis by (rule fl_small_integer)
qed

lemma sub_1_counted:
  fixes q :: rat
  assumes "q \<in> \<int>" and "1 \<le> q" and "q \<le> 2 ^ 53"
  shows "fl (q - 1) = Finite (q - 1)"
proof -
  have "q - 1 \<in> \<int>" using assms(1) by simp
  moreover have "\<bar>q - 1\<bar> \<le> 2 ^ 53" using assms(2,3) by simp
  ultimately show ?thesis by (rule fl_small_integer)
qed

lemma counted_Finite: "counted (Finite q) \<longleftrightarrow> q \<in> \<int> \<and> 1 \<le> q \<and> q \<le> 2 ^ 53"
  using is_integer_Finite[of q] by (simp add: counted_def is_integer_def)

lemma add_1_counted: "counted v \<Longrightarrow> counted (js_add v (Finite 1))"
proof (cases v)
  case (Finite q)
  assume "counted v"
  with Finite have q: "q \<in> \<int>" "1 \<le> q" "q \<le> 2 ^ 53"
    by (simp_all only: counted_Finite)
  show ?thesis
  proof (cases "q = 2 ^ 53")
    case True
    have "counted (Finite (2 ^ 53))" by (simp add: counted_Finite)
    then show ?thesis by (simp only: Finite True js_add.simps fl_tie_53)
  next
    case False
    with q have lt: "\<bar>q\<bar> < 2 ^ 53" by simp
    have "q + 1 \<le> 2 ^ 53" using integer_lt_succ[OF q(1), of "2 ^ 53"] lt by simp
    moreover have "q + 1 \<in> \<int>" using q(1) by simp
    moreover have "1 \<le> q + 1" using q(2) by simp
    ultimately have "counted (Finite (q + 1))" by (simp only: counted_Finite)
    then show ?thesis by (simp only: Finite js_add.simps add_1_small[OF q(1) lt])
  qed
qed (simp_all add: counted_def)

lemma sub_1_counted':
  assumes "counted v" and "js_gt v (Finite 1)"
  shows "counted (js_sub v (Finite 1))"
proof (cases v)
  case (Finite q)
  with assms have q: "q \<in> \<int>" "1 < q" "q \<le> 2 ^ 53"
    by (simp_all add: counted_Finite)
  then have "1 \<le> q" by simp
  have "q - 1 \<in> \<int>" using q(1) by simp
  moreover have "1 \<le> q - 1" using q(1,2) by (rule integer_gt_1)
  moreover have "q - 1 \<le> 2 ^ 53" using q(3) by simp
  ultimately have "counted (Finite (q - 1))" by (simp only: counted_Finite)
  then show ?thesis
    by (simp only: Finite js_sub.simps sub_1_counted[OF q(1) \<open>1 \<le> q\<close> q(3)])
qed (insert assms, simp_all add: counted_def)

lemma counted_ok: "counted v \<Longrightarrow> is_integer v \<and> at_least_1 v"
  by (cases v) (simp_all add: counted_def is_integer_def at_least_1_def)

subsection \<open>Searching the item sequence\<close>

lemma find_None_absent:
  "find (\<lambda>item. p_id (product item) = k) xs = None \<longleftrightarrow>
     (\<forall>item \<in> set xs. p_id (product item) \<noteq> k)"
  by (induction xs) simp_all

lemma find_append_absent:
  "\<forall>item \<in> set xs. \<not> P item \<Longrightarrow> find P (xs @ ys) = find P ys"
  by (induction xs) simp_all

lemma find_Some_present:
  "find (\<lambda>item. p_id (product item) = k) xs = Some e \<Longrightarrow> e \<in> set xs \<and> p_id (product e) = k"
  by (induction xs) (auto split: if_splits)

lemma getItemCount_split:
  assumes "items state = xs @ item # ys"
    and "\<forall>e \<in> set xs. p_id (product e) \<noteq> p_id (product item)"
  shows "fst (getItemCount (p_id (product item)) state) = quantity item"
  using assms by (simp add: getItemCount_def find_append_absent)

lemma getItemCount_absent:
  "\<forall>e \<in> set (items state). p_id (product e) \<noteq> k \<Longrightarrow>
   fst (getItemCount k state) = Finite 0"
  by (simp add: getItemCount_def find_None_absent[THEN iffD2])

subsection \<open>\<open>addItem\<close>\<close>

lemma items_addItem_absent:
  "\<forall>item \<in> set (items state). p_id (product item) \<noteq> p_id p \<Longrightarrow>
   items (addItem p state) = items state @ [\<lparr>product = p, quantity = Finite 1\<rparr>]"
  by (simp add: addItem_def find_None_absent)

lemma items_addItem_present:
  "\<exists>item \<in> set (items state). p_id (product item) = p_id p \<Longrightarrow>
   items (addItem p state) =
     map (\<lambda>item. if p_id (product item) = p_id p
                 then item\<lparr>quantity := js_add (quantity item) (Finite 1)\<rparr>
                 else item) (items state)"
  by (auto simp add: addItem_def find_None_absent)

lemma find_map_bump:
  "find (\<lambda>item. p_id (product item) = k)
     (map (\<lambda>item. if p_id (product item) = k
                 then item\<lparr>quantity := js_add (quantity item) (Finite 1)\<rparr>
                 else item) xs)
   = map_option (\<lambda>item. item\<lparr>quantity := js_add (quantity item) (Finite 1)\<rparr>)
       (find (\<lambda>item. p_id (product item) = k) xs)"
  by (induction xs) simp_all

lemma ids_map_bump:
  "map (\<lambda>item. p_id (product item))
     (map (\<lambda>item. if p_id (product item) = k
                 then item\<lparr>quantity := js_add (quantity item) (Finite 1)\<rparr>
                 else item) xs)
   = map (\<lambda>item. p_id (product item)) xs"
  by (induction xs) simp_all

lemma products_map_bump:
  "map product
     (map (\<lambda>item. if p_id (product item) = k
                 then item\<lparr>quantity := js_add (quantity item) (Finite 1)\<rparr>
                 else item) xs)
   = map product xs"
  by (induction xs) simp_all

lemma map_bump_absent:
  "\<forall>e \<in> set zs. p_id (product e) \<noteq> k \<Longrightarrow>
   map (\<lambda>item. if p_id (product item) = k
               then item\<lparr>quantity := js_add (quantity item) (Finite 1)\<rparr>
               else item) zs = zs"
  by (induction zs) simp_all

lemma one_more_small: "small_integer v \<Longrightarrow> one_more v (js_add v (Finite 1))"
proof (cases v)
  case (Finite q)
  assume "small_integer v"
  with Finite have "q \<in> \<int>" "\<bar>q\<bar> < 2 ^ 53"
    using is_integer_Finite[of q] by (simp_all add: small_integer_def is_integer_def)
  then have "fl (q + 1) = Finite (q + 1)" by (rule add_1_small)
  with Finite show ?thesis by (simp add: one_more_def)
qed (simp_all add: small_integer_def)

lemma getItemCount_addItem:
  assumes "\<forall>item \<in> set (items state).
             p_id (product item) = p_id p \<longrightarrow> small_integer (quantity item)"
  shows "one_more (fst (getItemCount (p_id p) state))
                  (fst (getItemCount (p_id p) (addItem p state)))"
proof (cases "\<exists>item \<in> set (items state). p_id (product item) = p_id p")
  case True
  then obtain e where e: "find (\<lambda>item. p_id (product item) = p_id p) (items state) = Some e"
    using find_None_absent[of "p_id p" "items state"] by auto
  from find_Some_present[OF e] assms have "small_integer (quantity e)" by simp
  then have "one_more (quantity e) (js_add (quantity e) (Finite 1))" by (rule one_more_small)
  with True e show ?thesis
    by (simp add: getItemCount_def items_addItem_present find_map_bump)
next
  case False
  then have absent: "\<forall>item \<in> set (items state). p_id (product item) \<noteq> p_id p" by simp
  then have "find (\<lambda>item. p_id (product item) = p_id p) (items state) = None"
    by (simp add: find_None_absent)
  with absent show ?thesis
    by (simp add: getItemCount_def items_addItem_absent find_append_absent one_more_def)
qed

subsection \<open>\<open>removeItem\<close>\<close>

text \<open>The fold of \<open>removeItem\<close> maps every entry to zero or one entries, in order.\<close>

lemma removeItem_foldl:
  "foldl (\<lambda>acc item.
            if p_id (product item) = productId
            then (if js_gt (quantity item) (Finite 1)
                  then acc @ [item\<lparr>quantity := js_sub (quantity item) (Finite 1)\<rparr>]
                  else acc)
            else acc @ [item]) acc xs
   = acc @ concat (map (\<lambda>item.
            if p_id (product item) = productId
            then (if js_gt (quantity item) (Finite 1)
                  then [item\<lparr>quantity := js_sub (quantity item) (Finite 1)\<rparr>] else [])
            else [item]) xs)"
  by (induction xs arbitrary: acc) simp_all

lemma items_removeItem:
  "items (removeItem productId state) =
     concat (map (\<lambda>item.
            if p_id (product item) = productId
            then (if js_gt (quantity item) (Finite 1)
                  then [item\<lparr>quantity := js_sub (quantity item) (Finite 1)\<rparr>] else [])
            else [item]) (items state))"
  by (simp add: removeItem_def removeItem_foldl)

lemma concat_map_absent:
  "\<forall>item \<in> set xs. p_id (product item) \<noteq> productId \<Longrightarrow>
   concat (map (\<lambda>item.
            if p_id (product item) = productId
            then (if js_gt (quantity item) (Finite 1)
                  then [item\<lparr>quantity := js_sub (quantity item) (Finite 1)\<rparr>] else [])
            else [item]) xs) = xs"
  by (induction xs) simp_all

lemma ids_after_remove:
  "(\<lambda>item. p_id (product item)) ` set (concat (map (\<lambda>item.
            if p_id (product item) = productId
            then (if js_gt (quantity item) (Finite 1)
                  then [item\<lparr>quantity := js_sub (quantity item) (Finite 1)\<rparr>] else [])
            else [item]) xs))
   \<subseteq> (\<lambda>item. p_id (product item)) ` set xs"
  by (induction xs) auto

lemma distinct_after_remove:
  "distinct (map (\<lambda>item. p_id (product item)) xs) \<Longrightarrow>
   distinct (map (\<lambda>item. p_id (product item)) (concat (map (\<lambda>item.
            if p_id (product item) = productId
            then (if js_gt (quantity item) (Finite 1)
                  then [item\<lparr>quantity := js_sub (quantity item) (Finite 1)\<rparr>] else [])
            else [item]) xs)))"
proof (induction xs)
  case Nil
  then show ?case by simp
next
  case (Cons x xs)
  then show ?case using ids_after_remove[of productId xs] by auto
qed

lemma counted_after_remove:
  "list_all (\<lambda>item. counted (quantity item)) xs \<Longrightarrow>
   list_all (\<lambda>item. counted (quantity item)) (concat (map (\<lambda>item.
            if p_id (product item) = productId
            then (if js_gt (quantity item) (Finite 1)
                  then [item\<lparr>quantity := js_sub (quantity item) (Finite 1)\<rparr>] else [])
            else [item]) xs))"
  by (induction xs) (simp_all add: sub_1_counted')

subsection \<open>\<open>getTotalPrice\<close>\<close>



subsection \<open>The invariant\<close>

lemma unique_ids_split:
  assumes "unique_ids state" and "items state = xs @ item # ys"
  shows "\<forall>e \<in> set xs \<union> set ys. p_id (product e) \<noteq> p_id (product item)"
  using assms by (auto simp add: unique_ids_def image_iff)

lemma unique_ids_addItem: "unique_ids state \<Longrightarrow> unique_ids (addItem p state)"
proof (cases "\<exists>item \<in> set (items state). p_id (product item) = p_id p")
  case True
  assume "unique_ids state"
  then show ?thesis
    unfolding unique_ids_def items_addItem_present[OF True] ids_map_bump .
next
  case False
  assume "unique_ids state"
  with False show ?thesis
    by (auto simp add: unique_ids_def items_addItem_absent)
qed

lemma unique_ids_removeItem: "unique_ids state \<Longrightarrow> unique_ids (removeItem productId state)"
  by (simp add: unique_ids_def items_removeItem distinct_after_remove)

lemma counted_addItem: "counted_quantities state \<Longrightarrow> counted_quantities (addItem p state)"
proof (cases "\<exists>item \<in> set (items state). p_id (product item) = p_id p")
  case True
  assume "counted_quantities state"
  with True show ?thesis
    by (auto simp add: counted_quantities_def items_addItem_present list_all_iff add_1_counted)
next
  case False
  assume "counted_quantities state"
  with False show ?thesis
    by (simp add: counted_quantities_def items_addItem_absent counted_Finite)
qed

lemma counted_removeItem:
  "counted_quantities state \<Longrightarrow> counted_quantities (removeItem productId state)"
  by (simp add: counted_quantities_def items_removeItem counted_after_remove)

lemma counted_quantities_ok: "counted_quantities state \<Longrightarrow> quantities_ok state"
  by (auto simp add: counted_quantities_def quantities_ok_def list_all_iff counted_ok)

lemma reach_call:
  "unique_ids state \<and> counted_quantities state \<Longrightarrow>
   unique_ids (snd (cart_call c state)) \<and> counted_quantities (snd (cart_call c state))"
  by (cases c)
     (simp_all add: unique_ids_addItem counted_addItem unique_ids_removeItem counted_removeItem
        getTotalPrice_def getItemCount_def getGroupedItems_def,
      simp_all add: unique_ids_def counted_quantities_def clearCart_def)

lemma reach_run:
  "unique_ids state \<and> counted_quantities state \<Longrightarrow>
   unique_ids (snd (cart_run cs state)) \<and> counted_quantities (snd (cart_run cs state))"
proof (induction cs arbitrary: state)
  case Nil
  then show ?case by simp
next
  case (Cons c cs)
  from Cons.prems
  have "unique_ids (snd (cart_call c state)) \<and> counted_quantities (snd (cart_call c state))"
    by (rule reach_call)
  then have "unique_ids (snd (cart_run cs (snd (cart_call c state))))
           \<and> counted_quantities (snd (cart_run cs (snd (cart_call c state))))"
    by (rule Cons.IH)
  then show ?case by (simp add: split_beta)
qed

lemma reach_initial: "unique_ids initial \<and> counted_quantities initial"
  by (simp add: unique_ids_def counted_quantities_def initial_def)

subsection \<open>The basket store against the cart store\<close>

lemma basket_addItem_eq: "basket_addItem = addItem"
  by (intro ext) (simp add: basket_addItem_def addItem_def)

lemma basket_removeItem_eq: "basket_removeItem = removeItem"
  by (intro ext) (simp add: basket_removeItem_def removeItem_def)

lemma clearBasket_eq: "clearBasket = clearCart"
  by (intro ext) (simp add: clearBasket_def clearCart_def)

lemma basket_getTotalPrice_eq: "basket_getTotalPrice = getTotalPrice"
  by (intro ext) (simp add: basket_getTotalPrice_def getTotalPrice_def)

lemma basket_getItemCount_eq: "basket_getItemCount = getItemCount"
  by (intro ext) (simp add: basket_getItemCount_def getItemCount_def)

lemma basket_getGroupedItems_eq: "basket_getGroupedItems = getGroupedItems"
  by (intro ext) (simp add: basket_getGroupedItems_def getGroupedItems_def)

lemma basket_call_eq: "basket_call c state = cart_call c state"
  by (cases c)
     (simp_all add: basket_addItem_eq basket_removeItem_eq clearBasket_eq
        basket_getTotalPrice_eq basket_getItemCount_eq basket_getGroupedItems_eq)

lemma basket_run_eq: "basket_run cs state = cart_run cs state"
  by (induction cs arbitrary: state) (simp_all add: basket_call_eq)

subsection \<open>The example values\<close>

lemma unique_ids_example: "unique_ids example_cart"
  by (simp add: unique_ids_def example_cart_def product_a_def product_b_def)

lemma cart_inv_example: "cart_inv example_cart"
  by (simp add: cart_inv_def unique_ids_example)
     (simp add: quantities_ok_def example_cart_def is_integer_def at_least_1_def)

section \<open>The claims\<close>

text \<open>
  C1, as stated, fails: a JavaScript number is a double, and in doubles \<open>2^53 + 1\<close>
  rounds to \<open>2^53\<close>. In a cart that holds a product \<open>2^53\<close> times, \<open>addItem\<close> leaves
  \<open>getItemCount\<close> at \<open>2^53\<close>.
\<close>

theorem addItem_saturated_counterexample:
  "cart_inv saturated_cart
   \<and> is_double (Finite (2 ^ 53))
   \<and> fst (getItemCount ''a'' saturated_cart) = Finite (2 ^ 53)
   \<and> fst (getItemCount ''a'' (addItem product_a saturated_cart)) = Finite (2 ^ 53)"
proof -
  have "cart_inv saturated_cart"
    by (simp add: cart_inv_def unique_ids_def quantities_ok_def saturated_cart_def
          is_integer_def at_least_1_def)
  moreover have "is_double (Finite (2 ^ 53))"
    by (rule is_double_small_integer) simp_all
  moreover have "fst (getItemCount ''a'' saturated_cart) = Finite (2 ^ 53)"
    by (simp add: getItemCount_def saturated_cart_def product_a_def)
  moreover have "fst (getItemCount ''a'' (addItem product_a saturated_cart)) = Finite (2 ^ 53)"
    by (simp add: getItemCount_def addItem_def saturated_cart_def product_a_def
          fl_tie_53[simplified])
  ultimately show ?thesis by simp
qed

text \<open>
  C1, amended: for every cart state and every product \<open>P\<close> such that the quantity of
  every entry with the identifier of \<open>P\<close> is an integer of magnitude less than \<open>2^53\<close>,
  \<open>addItem(P)\<close> increases \<open>getItemCount(P._id)\<close> by exactly 1. When no entry has the
  identifier of \<open>P\<close>, a new entry with quantity 1 is appended at the end. When an entry
  has it, the sequence keeps its length, every position keeps its product, and the
  quantity at a position is 1 more where the identifier is that of \<open>P\<close> and is as it
  was elsewhere.
\<close>

theorem addItem_count_and_position:
  assumes "\<forall>item \<in> set (items state).
             p_id (product item) = p_id p \<longrightarrow> small_integer (quantity item)"
  shows "one_more (fst (getItemCount (p_id p) state))
                  (fst (getItemCount (p_id p) (addItem p state)))
       \<and> ((\<forall>item \<in> set (items state). p_id (product item) \<noteq> p_id p) \<longrightarrow>
            items (addItem p state) = items state @ [\<lparr>product = p, quantity = Finite 1\<rparr>])
       \<and> ((\<exists>item \<in> set (items state). p_id (product item) = p_id p) \<longrightarrow>
            length (items (addItem p state)) = length (items state) \<and>
            (\<forall>i < length (items state).
               product (items (addItem p state) ! i) = product (items state ! i) \<and>
               (if p_id (product (items state ! i)) = p_id p
                then one_more (quantity (items state ! i))
                              (quantity (items (addItem p state) ! i))
                else quantity (items (addItem p state) ! i) = quantity (items state ! i))))"
proof (intro conjI impI)
  show "one_more (fst (getItemCount (p_id p) state))
                 (fst (getItemCount (p_id p) (addItem p state)))"
    using assms by (rule getItemCount_addItem)
next
  assume "\<forall>item \<in> set (items state). p_id (product item) \<noteq> p_id p"
  then show "items (addItem p state) = items state @ [\<lparr>product = p, quantity = Finite 1\<rparr>]"
    by (rule items_addItem_absent)
next
  assume "\<exists>item \<in> set (items state). p_id (product item) = p_id p"
  then show "length (items (addItem p state)) = length (items state)"
    by (simp add: items_addItem_present)
next
  assume present: "\<exists>item \<in> set (items state). p_id (product item) = p_id p"
  show "\<forall>i < length (items state).
           product (items (addItem p state) ! i) = product (items state ! i) \<and>
           (if p_id (product (items state ! i)) = p_id p
            then one_more (quantity (items state ! i))
                          (quantity (items (addItem p state) ! i))
            else quantity (items (addItem p state) ! i) = quantity (items state ! i))"
  proof (intro allI impI)
    fix i
    assume i: "i < length (items state)"
    then have "items state ! i \<in> set (items state)" by simp
    with assms have "p_id (product (items state ! i)) = p_id p \<longrightarrow>
        one_more (quantity (items state ! i)) (js_add (quantity (items state ! i)) (Finite 1))"
      by (auto intro: one_more_small)
    with i show "product (items (addItem p state) ! i) = product (items state ! i) \<and>
           (if p_id (product (items state ! i)) = p_id p
            then one_more (quantity (items state ! i))
                          (quantity (items (addItem p state) ! i))
            else quantity (items (addItem p state) ! i) = quantity (items state ! i))"
      by (simp add: items_addItem_present[OF present])
  qed
qed

text \<open>
  The theorem at \<open>example_cart\<close>: adding a product whose identifier \<open>a\<close> is in the cart,
  and adding \<open>product_c\<close>, whose identifier is not.
\<close>

theorem addItem_count_and_position_witness:
  "small_integer (Finite 2)
   \<and> fst (getItemCount ''a'' example_cart) = Finite 2
   \<and> fst (getItemCount ''a'' (addItem product_a' example_cart)) = Finite 3
   \<and> items (addItem product_a' example_cart) =
       [\<lparr>product = product_a, quantity = Finite 3\<rparr>, \<lparr>product = product_b, quantity = Finite 1\<rparr>]
   \<and> p_id product_c \<notin> set (map (\<lambda>item. p_id (product item)) (items example_cart))
   \<and> items (addItem product_c example_cart) =
       [\<lparr>product = product_a, quantity = Finite 2\<rparr>, \<lparr>product = product_b, quantity = Finite 1\<rparr>,
        \<lparr>product = product_c, quantity = Finite 1\<rparr>]"
proof -
  have s: "small_integer (Finite 2)" by (simp add: small_integer_def)
  have a: "\<forall>item \<in> set (items example_cart).
             p_id (product item) = p_id product_a' \<longrightarrow> small_integer (quantity item)"
    using s by (simp add: example_cart_def product_a_def product_a'_def product_b_def)
  have c: "\<forall>item \<in> set (items example_cart).
             p_id (product item) = p_id product_c \<longrightarrow> small_integer (quantity item)"
    by (simp add: example_cart_def product_a_def product_c_def product_b_def)
  have three: "fl 3 = Finite 3" by (rule fl_small_integer) simp_all
  from addItem_count_and_position[OF a] addItem_count_and_position[OF c] s
  show ?thesis
    by (simp add: getItemCount_def addItem_def example_cart_def one_more_def three
          product_a_def product_a'_def product_b_def product_c_def)
qed

text \<open>
  C2, as stated, fails: in doubles \<open>(2^53 + 2) - 1\<close> rounds to \<open>2^53\<close>. In a cart of
  the data model that holds a product \<open>2^53 + 2\<close> times, \<open>removeItem\<close> takes the
  quantity, and \<open>getItemCount\<close>, to \<open>2^53\<close>, which is 2 less.
\<close>

theorem removeItem_oversized_counterexample:
  "cart_inv oversized_cart
   \<and> is_double (Finite (2 ^ 53 + 2))
   \<and> fst (getItemCount ''a'' oversized_cart) = Finite (2 ^ 53 + 2)
   \<and> fst (getItemCount ''a'' (removeItem ''a'' oversized_cart)) = Finite (2 ^ 53)"
proof -
  have "cart_inv oversized_cart"
    by (simp add: cart_inv_def unique_ids_def quantities_ok_def oversized_cart_def
          is_integer_def at_least_1_def)
  moreover have "fst (getItemCount ''a'' oversized_cart) = Finite (2 ^ 53 + 2)"
    by (simp add: getItemCount_def oversized_cart_def product_a_def)
  moreover have "fst (getItemCount ''a'' (removeItem ''a'' oversized_cart)) = Finite (2 ^ 53)"
    by (simp add: getItemCount_def removeItem_def oversized_cart_def product_a_def
          fl_tie_53[simplified])
  ultimately show ?thesis using is_double_oversized by simp
qed

text \<open>
  C2, amended: in a cart state of the data model (identifiers unique, quantities
  integers that are at least 1) that holds an entry \<open>item\<close> with identifier \<open>productId\<close>
  and a quantity \<open>q\<close> of at most \<open>2^53\<close>, \<open>removeItem(productId)\<close> puts \<open>q - 1\<close> in the
  entry's place when \<open>q\<close> is more than 1, and takes the entry out when \<open>q\<close> is 1;
  \<open>getItemCount(productId)\<close>, which was \<open>q\<close>, is \<open>q - 1\<close> afterwards (0 when \<open>q\<close> was 1).
\<close>

theorem removeItem_decrements_or_removes:
  assumes "cart_inv state"
    and "items state = xs @ item # ys"
    and "p_id (product item) = productId"
    and "quantity item = Finite q"
    and "q \<le> 2 ^ 53"
  shows "(1 < q \<longrightarrow>
            items (removeItem productId state) = xs @ item\<lparr>quantity := Finite (q - 1)\<rparr> # ys)
       \<and> (q = 1 \<longrightarrow> items (removeItem productId state) = xs @ ys)
       \<and> fst (getItemCount productId state) = Finite q
       \<and> fst (getItemCount productId (removeItem productId state)) = Finite (q - 1)"
proof -
  from assms have others: "\<forall>e \<in> set xs \<union> set ys. p_id (product e) \<noteq> productId"
    using unique_ids_split[of state xs item ys] by (simp add: cart_inv_def)
  from assms(1,2,4) have q: "q \<in> \<int>" "1 \<le> q"
    using is_integer_Finite[of q]
    by (simp_all add: cart_inv_def quantities_ok_def at_least_1_def)
  from q assms(5) have sub: "fl (q - 1) = Finite (q - 1)" by (rule sub_1_counted)
  have items': "items (removeItem productId state) =
      xs @ (if 1 < q then [item\<lparr>quantity := Finite (q - 1)\<rparr>] else []) @ ys"
    using others assms(2,3,4) sub by (simp add: items_removeItem concat_map_absent)
  have before: "fst (getItemCount productId state) = Finite q"
    using getItemCount_split[of state xs item ys] others assms(2,3,4) by simp
  have after: "fst (getItemCount productId (removeItem productId state)) = Finite (q - 1)"
  proof (cases "1 < q")
    case True
    with items' have "items (removeItem productId state)
        = xs @ item\<lparr>quantity := Finite (q - 1)\<rparr> # ys" by simp
    from getItemCount_split[OF this] others assms(3) show ?thesis by simp
  next
    case False
    with q have "q = 1" by simp
    moreover from False items' others
    have "\<forall>e \<in> set (items (removeItem productId state)). p_id (product e) \<noteq> productId"
      by simp
    ultimately show ?thesis by (simp add: getItemCount_absent)
  qed
  from items' before after show ?thesis by simp
qed

text \<open>
  The theorem at \<open>example_cart\<close>: removing \<open>a\<close> (quantity 2) and removing \<open>b\<close>
  (quantity 1).
\<close>

theorem removeItem_decrements_or_removes_witness:
  "cart_inv example_cart
   \<and> items example_cart
       = [] @ \<lparr>product = product_a, quantity = Finite 2\<rparr>
            # [\<lparr>product = product_b, quantity = Finite 1\<rparr>]
   \<and> items (removeItem ''a'' example_cart)
       = [\<lparr>product = product_a, quantity = Finite 1\<rparr>, \<lparr>product = product_b, quantity = Finite 1\<rparr>]
   \<and> fst (getItemCount ''a'' (removeItem ''a'' example_cart)) = Finite 1
   \<and> items example_cart
       = [\<lparr>product = product_a, quantity = Finite 2\<rparr>]
           @ \<lparr>product = product_b, quantity = Finite 1\<rparr> # []
   \<and> items (removeItem ''b'' example_cart) = [\<lparr>product = product_a, quantity = Finite 2\<rparr>]
   \<and> fst (getItemCount ''b'' (removeItem ''b'' example_cart)) = Finite 0"
proof -
  have a: "items example_cart
       = [] @ \<lparr>product = product_a, quantity = Finite 2\<rparr>
            # [\<lparr>product = product_b, quantity = Finite 1\<rparr>]"
    by (simp add: example_cart_def)
  have b: "items example_cart
       = [\<lparr>product = product_a, quantity = Finite 2\<rparr>]
           @ \<lparr>product = product_b, quantity = Finite 1\<rparr> # []"
    by (simp add: example_cart_def)
  have ida: "p_id (product \<lparr>product = product_a, quantity = Finite 2\<rparr>) = ''a''"
    by (simp add: product_a_def)
  have idb: "p_id (product \<lparr>product = product_b, quantity = Finite 1\<rparr>) = ''b''"
    by (simp add: product_b_def)
  have qa: "quantity \<lparr>product = product_a, quantity = Finite 2\<rparr> = Finite 2" by simp
  have qb: "quantity \<lparr>product = product_b, quantity = Finite 1\<rparr> = Finite 1" by simp
  have "(2::rat) \<le> 2 ^ 53" "(1::rat) \<le> 2 ^ 53" by simp_all
  with removeItem_decrements_or_removes[OF cart_inv_example a ida qa]
       removeItem_decrements_or_removes[OF cart_inv_example b idb qb]
       cart_inv_example a b
  show ?thesis by simp
qed

text \<open>
  C3: every state that the cart store reaches from the empty state by a sequence of
  calls (\<open>addItem\<close>, \<open>removeItem\<close>, \<open>clearCart\<close>, and the queries, which leave the state
  alone) has no two entries with the same \<open>product._id\<close>, and every quantity in it is an
  integer that is at least 1.
\<close>

theorem reachable_cart_inv: "cart_inv (snd (cart_run cs initial))"
  using reach_run[OF reach_initial, of cs] by (simp add: cart_inv_def counted_quantities_ok)

theorem reachable_cart_inv_witness:
  "snd (cart_run [AddItem product_a, AddItem product_b, AddItem product_a', Clear,
                  AddItem product_b, AddItem product_a, AddItem product_a', RemoveItem ''b'']
                 initial)
     = \<lparr>items = [\<lparr>product = product_a, quantity = Finite 2\<rparr>]\<rparr>
   \<and> cart_inv \<lparr>items = [\<lparr>product = product_a, quantity = Finite 2\<rparr>]\<rparr>"
proof -
  have two: "fl 2 = Finite 2" by (rule fl_small_integer) simp_all
  have run: "snd (cart_run [AddItem product_a, AddItem product_b, AddItem product_a', Clear,
                  AddItem product_b, AddItem product_a, AddItem product_a', RemoveItem ''b'']
                 initial)
     = \<lparr>items = [\<lparr>product = product_a, quantity = Finite 2\<rparr>]\<rparr>"
    by (simp add: initial_def addItem_def removeItem_def clearCart_def
          product_a_def product_b_def product_a'_def two)
  with reachable_cart_inv[of "[AddItem product_a, AddItem product_b, AddItem product_a', Clear,
                  AddItem product_b, AddItem product_a, AddItem product_a', RemoveItem ''b'']"]
  show ?thesis by simp
qed




text \<open>
  C5: the basket store does what the cart store does. For every sequence of calls from
  the empty state, the two stores return the same results, call by call, and end with the
  same item sequence.
\<close>

theorem basket_store_equals_cart_store:
  "fst (basket_run cs initial) = fst (cart_run cs initial)
   \<and> items (snd (basket_run cs initial)) = items (snd (cart_run cs initial))"
  by (simp add: basket_run_eq)

text \<open>
  C6: when no entry of the cart has the identifier \<open>productId\<close>, \<open>removeItem(productId)\<close>
  leaves the item sequence, and so the state, as it was.
\<close>

theorem removeItem_absent_noop:
  assumes "\<forall>item \<in> set (items state). p_id (product item) \<noteq> productId"
  shows "items (removeItem productId state) = items state
       \<and> removeItem productId state = state"
proof -
  have "items (removeItem productId state) = items state"
    using assms by (simp add: items_removeItem concat_map_absent)
  moreover from this have "removeItem productId state = state"
    by (simp add: removeItem_def)
  ultimately show ?thesis by simp
qed

theorem removeItem_absent_noop_witness:
  "''c'' \<notin> set (map (\<lambda>item. p_id (product item)) (items example_cart))
   \<and> items (removeItem ''c'' example_cart)
       = [\<lparr>product = product_a, quantity = Finite 2\<rparr>, \<lparr>product = product_b, quantity = Finite 1\<rparr>]"
proof -
  have absent: "\<forall>item \<in> set (items example_cart). p_id (product item) \<noteq> ''c''"
    by (simp add: example_cart_def product_a_def product_b_def)
  from removeItem_absent_noop[OF absent] absent show ?thesis
    by (simp add: example_cart_def product_a_def product_b_def)
qed

text \<open>
  C7: for every cart state, whatever it holds, \<open>clearCart()\<close> followed by
  \<open>getGroupedItems()\<close> returns the empty sequence.
\<close>

theorem clearCart_then_getGroupedItems: "fst (getGroupedItems (clearCart state)) = []"
  by (simp add: getGroupedItems_def clearCart_def)

text \<open>
  C8: when the \<open>stripe-signature\<close> header is missing or the webhook secret is not set,
  the handler returns a response of status 400 whose body has an \<open>error\<close> field. And the
  handler verifies no signature and handles no event: its outcome is the same for any two
  requests and environments that agree on whether the signature and the secret are there,
  whatever the body, the signature and the secret are.
\<close>

theorem POST_rejects_and_never_verifies:
  "((headers req ''stripe-signature'' = None \<or> environment ''STRIPE_WEBHOOK_SECRET'' = None)
      \<longrightarrow> (\<exists>message. fst (POST req environment)
                         = Some \<lparr>json = [(''error'', message)], status = 400\<rparr>))
   \<and> ((falsy (headers req ''stripe-signature'') = falsy (headers req' ''stripe-signature'')
        \<and> falsy (environment ''STRIPE_WEBHOOK_SECRET'')
            = falsy (environment' ''STRIPE_WEBHOOK_SECRET''))
      \<longrightarrow> POST req environment = POST req' environment')"
  by (auto simp add: POST_def falsy_def Let_def)

theorem POST_rejects_and_never_verifies_witness:
  "headers unsigned_request ''stripe-signature'' = None
   \<and> fst (POST unsigned_request configured_env)
       = Some \<lparr>json = [(''error'', ''No signature'')], status = 400\<rparr>
   \<and> fst (POST signed_request Map.empty)
       = Some \<lparr>json = [(''error'', ''Stripe webhook secret is not set'')], status = 400\<rparr>
   \<and> POST signed_request configured_env = POST forged_request configured_env"
  using POST_rejects_and_never_verifies
          [of unsigned_request configured_env unsigned_request configured_env]
        POST_rejects_and_never_verifies
          [of signed_request Map.empty signed_request Map.empty]
        POST_rejects_and_never_verifies
          [of signed_request configured_env forged_request configured_env]
  by (simp add: POST_def falsy_def unsigned_request_def signed_request_def
        forged_request_def configured_env_def)

text \<open>
  C9: in a cart state with unique identifiers that holds an entry \<open>item\<close> whose
  identifier is that of \<open>p\<close>, \<open>addItem(p)\<close> changes the quantity of that entry and
  nothing else. Every entry keeps the product it was stored with, and nothing of \<open>p\<close>
  but its identifier is read: adding \<open>p\<close> gives the state that adding the stored
  product gives, so \<open>getTotalPrice\<close> afterwards is computed from the stored prices,
  whatever the price of \<open>p\<close>. The basket store does the same.
\<close>

theorem addItem_keeps_stored_product:
  assumes "unique_ids state"
    and "items state = xs @ item # ys"
    and "p_id (product item) = p_id p"
  shows "items (addItem p state)
           = xs @ item\<lparr>quantity := js_add (quantity item) (Finite 1)\<rparr> # ys
       \<and> map product (items (addItem p state)) = map product (items state)
       \<and> addItem p state = addItem (product item) state
       \<and> getTotalPrice (addItem p state) = getTotalPrice (addItem (product item) state)
       \<and> items (basket_addItem p state)
           = xs @ item\<lparr>quantity := js_add (quantity item) (Finite 1)\<rparr> # ys
       \<and> map product (items (basket_addItem p state)) = map product (items state)
       \<and> basket_addItem p state = basket_addItem (product item) state"
proof -
  from assms have others: "\<forall>e \<in> set xs \<union> set ys. p_id (product e) \<noteq> p_id p"
    using unique_ids_split[of state xs item ys] by simp
  have present: "\<exists>e \<in> set (items state). p_id (product e) = p_id p"
    using assms(2,3) by simp
  have present': "\<exists>e \<in> set (items state). p_id (product e) = p_id (product item)"
    using assms(2) by simp
  have items': "items (addItem p state)
      = xs @ item\<lparr>quantity := js_add (quantity item) (Finite 1)\<rparr> # ys"
    using others assms(2,3) by (simp add: items_addItem_present[OF present] map_bump_absent)
  have products: "map product (items (addItem p state)) = map product (items state)"
    by (simp only: items_addItem_present[OF present] products_map_bump)
  have "items (addItem p state) = items (addItem (product item) state)"
    by (simp only: items_addItem_present[OF present] items_addItem_present[OF present'] assms(3))
  then have same: "addItem p state = addItem (product item) state"
    by (simp add: addItem_def)
  from items' products same show ?thesis
    by (simp add: basket_addItem_eq)
qed

text \<open>
  The theorem at \<open>example_cart\<close>, which holds \<open>product_a\<close> (price 10) twice: adding
  \<open>product_a'\<close>, of the same identifier and price 99, raises the total from 25 to 35.
\<close>

theorem addItem_keeps_stored_product_witness:
  "unique_ids example_cart
   \<and> items example_cart
       = [] @ \<lparr>product = product_a, quantity = Finite 2\<rparr>
            # [\<lparr>product = product_b, quantity = Finite 1\<rparr>]
   \<and> p_id product_a' = p_id product_a
   \<and> price product_a' = Defined (Finite 99)
   \<and> items (addItem product_a' example_cart)
       = [\<lparr>product = product_a, quantity = Finite 3\<rparr>, \<lparr>product = product_b, quantity = Finite 1\<rparr>]
   \<and> fst (getTotalPrice example_cart) = Finite 25
   \<and> fst (getTotalPrice (addItem product_a' example_cart)) = Finite 35"
proof -
  have i: "items example_cart
      = [] @ \<lparr>product = product_a, quantity = Finite 2\<rparr>
           # [\<lparr>product = product_b, quantity = Finite 1\<rparr>]"
    by (simp add: example_cart_def)
  have p: "p_id (product \<lparr>product = product_a, quantity = Finite 2\<rparr>) = p_id product_a'"
    by (simp add: product_a_def product_a'_def)
  have small: "fl 3 = Finite 3" "fl 5 = Finite 5" "fl 20 = Finite 20" "fl 25 = Finite 25"
      "fl 30 = Finite 30" "fl 35 = Finite 35"
    by (rule fl_small_integer; simp)+
  have t: "fst (getTotalPrice example_cart) = Finite 25"
    by (simp add: getTotalPrice_def example_cart_def product_a_def product_b_def nullish_def small)
  from addItem_keeps_stored_product[OF unique_ids_example i p]
  have "items (addItem product_a' example_cart)
      = [] @ \<lparr>product = product_a, quantity = Finite 2\<rparr>
               \<lparr>quantity := js_add (quantity \<lparr>product = product_a, quantity = Finite 2\<rparr>) (Finite 1)\<rparr>
           # [\<lparr>product = product_b, quantity = Finite 1\<rparr>]"
    by (rule conjunct1)
  then have items': "items (addItem product_a' example_cart)
      = [\<lparr>product = product_a, quantity = Finite 3\<rparr>, \<lparr>product = product_b, quantity = Finite 1\<rparr>]"
    by (simp add: small)
  have t': "fst (getTotalPrice (addItem product_a' example_cart)) = Finite 35"
    by (simp add: getTotalPrice_def items' product_a_def product_b_def nullish_def small)
  have "p_id product_a' = p_id product_a" "price product_a' = Defined (Finite 99)"
    by (simp_all add: product_a_def product_a'_def)
  with unique_ids_example i items' t t' show ?thesis by simp
qed

text \<open>
  C10, as stated, fails: a request whose \<open>stripe-signature\<close> header is present with an
  empty value, in an environment where the secret is set, gets the 400 response
  \<open>No signature\<close>, because \<open>!sig\<close> is true of the empty string.
\<close>

theorem POST_empty_signature_counterexample:
  "headers empty_signature_request ''stripe-signature'' \<noteq> None
   \<and> configured_env ''STRIPE_WEBHOOK_SECRET'' \<noteq> None
   \<and> fst (POST empty_signature_request configured_env)
       = Some \<lparr>json = [(''error'', ''No signature'')], status = 400\<rparr>"
  by (simp add: POST_def falsy_def empty_signature_request_def configured_env_def)

text \<open>
  C10, amended: when the \<open>stripe-signature\<close> header is present with a value that is not
  empty and the webhook secret is set to a value that is not empty, the handler reaches
  its end without a \<open>return\<close>: the caller gets \<open>undefined\<close>, and nothing is logged.
\<close>

theorem POST_returns_nothing:
  assumes "headers req ''stripe-signature'' = Some signature" and "signature \<noteq> []"
    and "environment ''STRIPE_WEBHOOK_SECRET'' = Some secret" and "secret \<noteq> []"
  shows "POST req environment = (None, [])"
  using assms by (simp add: POST_def falsy_def)

theorem POST_returns_nothing_witness:
  "headers signed_request ''stripe-signature'' = Some ''t=1,v1=abc''
   \<and> configured_env ''STRIPE_WEBHOOK_SECRET'' = Some ''whsec_1''
   \<and> POST signed_request configured_env = (None, [])"
proof -
  have h: "headers signed_request ''stripe-signature'' = Some ''t=1,v1=abc''"
    by (simp add: signed_request_def)
  have e: "configured_env ''STRIPE_WEBHOOK_SECRET'' = Some ''whsec_1''"
    by (simp add: configured_env_def)
  have "''t=1,v1=abc'' \<noteq> []" and "''whsec_1'' \<noteq> []" by simp_all
  with POST_returns_nothing[of signed_request "''t=1,v1=abc''" configured_env "''whsec_1''"] h e
  show ?thesis by simp
qed

end
